theory Spec2Isabelle
  imports Complex_Main "HOL-Library.List_Lexorder" "HOL-Library.Char_ord"
begin

section \<open>The table\<close>

text \<open>
  The notebook \<^verbatim>\<open>datacleaning.ipynb\<close> works on one pandas DataFrame. A column of a
  DataFrame is a typed array, so a column is a tagged union over the four dtypes the
  notebook meets: \<^verbatim>\<open>object\<close> (text), \<^verbatim>\<open>int64\<close>, \<^verbatim>\<open>float64\<close> and
  \<^verbatim>\<open>datetime64[ns]\<close>. The missing marker is \<^verbatim>\<open>NaN\<close> (\<^verbatim>\<open>NaT\<close> in a temporal
  column), written \<open>None\<close>; an \<^verbatim>\<open>int64\<close> array has no missing marker.

  pandas and scikit-learn are not part of the repository. Each library call the notebook
  makes is a definition of its own, named after the call, that states the behaviour of
  the call the notebook relies on; the five functions of the notebook and the pipeline
  are translated statement by statement on top of them.

  Modelling choices, stated once:
  \<^item> a \<^verbatim>\<open>float64\<close> value is a real number: rounding and the infinities are not
    modelled, \<^verbatim>\<open>NaN\<close> is \<open>None\<close>;
  \<^item> an \<^verbatim>\<open>int64\<close> value is an integer: overflow is not modelled;
  \<^item> a timestamp is its number of nanoseconds since the epoch;
  \<^item> the cells of an \<^verbatim>\<open>object\<close> column are strings or \<^verbatim>\<open>NaN\<close>, as a CSV reader
    produces them; a string is the list of its bytes, and the order of strings is the
    lexicographic one, which is Python's.
\<close>

datatype column =
    ObjectCol "string option list"
  | Int64Col "int list"
  | Float64Col "real option list"
  | DatetimeCol "int option list"

datatype cell = NA | TextCell string | IntCell int | FloatCell real | TimeCell int

fun cells :: "column \<Rightarrow> cell list" where
  "cells (ObjectCol xs) = map (\<lambda>x. case x of None \<Rightarrow> NA | Some s \<Rightarrow> TextCell s) xs"
| "cells (Int64Col xs) = map IntCell xs"
| "cells (Float64Col xs) = map (\<lambda>x. case x of None \<Rightarrow> NA | Some v \<Rightarrow> FloatCell v) xs"
| "cells (DatetimeCol xs) = map (\<lambda>x. case x of None \<Rightarrow> NA | Some t \<Rightarrow> TimeCell t) xs"

definition col_len :: "column \<Rightarrow> nat" where
  "col_len c = length (cells c)"

text \<open>\<^verbatim>\<open>Series.isnull()\<close>: the mask of the missing cells.\<close>

definition isnull :: "column \<Rightarrow> bool list" where
  "isnull c = map (\<lambda>x. x = NA) (cells c)"

text \<open>
  A DataFrame: its number of rows (the length of its index) and its named columns, in
  order. \<^verbatim>\<open>len(df)\<close> is \<open>nrows df\<close> and \<^verbatim>\<open>df.shape\<close> is \<open>shape df\<close>.
\<close>

record dataframe =
  nrows :: nat
  cols :: "(string \<times> column) list"

definition shape :: "dataframe \<Rightarrow> nat \<times> nat" where
  "shape df = (nrows df, length (cols df))"

definition columns :: "dataframe \<Rightarrow> string list" where
  "columns df = map fst (cols df)"

text \<open>Every column of a DataFrame has one cell per row.\<close>

definition rectangular :: "dataframe \<Rightarrow> bool" where
  "rectangular df \<longleftrightarrow> list_all (\<lambda>(name, c). col_len c = nrows df) (cols df)"

datatype error = ValueError | ZeroDivisionError

section \<open>Step 1: check_data_quality\<close>

text \<open>\<^verbatim>\<open>Series.to_dict()\<close> and the dictionaries of the reports: finite maps, a later
  entry of the same key replacing an earlier one.\<close>

definition to_dict :: "('k \<times> 'v) list \<Rightarrow> ('k \<rightharpoonup> 'v)" where
  "to_dict kvs = fold (\<lambda>(k, v) m. m(k \<mapsto> v)) kvs Map.empty"

text \<open>\<^verbatim>\<open>df.isnull().sum()\<close>: for each column, the number of its missing cells.\<close>

definition isnull_sum :: "dataframe \<Rightarrow> (string \<times> nat) list" where
  "isnull_sum df = map (\<lambda>(name, c). (name, length (filter id (isnull c)))) (cols df)"

text \<open>The rows of the table, each the list of its cells in column order.\<close>

definition rows :: "dataframe \<Rightarrow> cell list list" where
  "rows df = map (\<lambda>i. map (\<lambda>(name, c). cells c ! i) (cols df)) [0..<nrows df]"

text \<open>
  \<^verbatim>\<open>df.duplicated()\<close> marks a row that equals an earlier row (missing cells compare
  equal). An empty DataFrame (no row or no column) gives the empty mask.
\<close>

fun duplicated_from :: "'a list \<Rightarrow> 'a list \<Rightarrow> bool list" where
  "duplicated_from seen [] = []"
| "duplicated_from seen (r # rs) = (r \<in> set seen) # duplicated_from (r # seen) rs"

definition duplicated :: "dataframe \<Rightarrow> bool list" where
  "duplicated df =
     (if nrows df = 0 \<or> cols df = [] then [] else duplicated_from [] (rows df))"

record quality_report =
  missing_values :: "string \<rightharpoonup> nat"
  duplicates :: nat
  total_rows :: nat
  memory_usage :: real

text \<open>
  \<^verbatim>\<open>df.memory_usage().sum()\<close> depends on the memory layout of the arrays; the number
  of bytes is the parameter \<open>mem\<close>. The function only reads \<^verbatim>\<open>df\<close>: it returns the
  table as the call leaves it, and the report.
\<close>

definition check_data_quality ::
  "(dataframe \<Rightarrow> nat) \<Rightarrow> dataframe \<Rightarrow> dataframe \<times> quality_report" where
  "check_data_quality mem df =
     (let quality_report =
        \<lparr> missing_values = to_dict (isnull_sum df),
          duplicates = length (filter id (duplicated df)),
          total_rows = nrows df,
          memory_usage = real (mem df) / 1024 ^ 2 \<rparr>
      in (df, quality_report))"

section \<open>Step 5: validate_cleaning\<close>

record validation_results =
  rows_remaining :: nat
  missing_values_remaining :: nat
  duplicates_remaining :: nat
  data_loss_percentage :: real

text \<open>The cleaning report is a dictionary with at most three keys.\<close>

record cleaning_report =
  initial_quality :: "quality_report option"
  outliers_removed :: "(string \<rightharpoonup> nat) option"
  validation :: "validation_results option"

text \<open>
  \<^verbatim>\<open>len(df)/original_shape[0]\<close> divides two Python integers: it raises
  \<^verbatim>\<open>ZeroDivisionError\<close> when the original table had no row. The result is the table
  as the call leaves it, and the report or the error.
\<close>

definition validate_cleaning ::
  "dataframe \<Rightarrow> nat \<times> nat \<Rightarrow> cleaning_report \<Rightarrow> dataframe \<times> (error + cleaning_report)" where
  "validate_cleaning df original_shape cleaning_report =
     (if fst original_shape = 0 then (df, Inl ZeroDivisionError)
      else
        let validation_results =
          \<lparr> rows_remaining = nrows df,
            missing_values_remaining = sum_list (map snd (isnull_sum df)),
            duplicates_remaining = length (filter id (duplicated df)),
            data_loss_percentage =
              (1 - real (nrows df) / real (fst original_shape)) * 100 \<rparr>
        in (df, Inr (cleaning_report\<lparr>validation := Some validation_results\<rparr>)))"

section \<open>Step 2: standardize_datatypes\<close>

text \<open>
  \<^verbatim>\<open>pd.to_datetime(series)\<close> on a text column. The date parser of the library is
  not part of the repository and is taken as two parameters: \<open>guess_format\<close> reads the
  target format off the first present cell (one value of \<open>'f\<close> may stand for "no format
  found: parse every cell on its own"), and \<open>parse_with fmt s\<close> parses one string in
  that format (\<open>None\<close>: the string does not parse). The call raises \<^verbatim>\<open>ValueError\<close>
  as soon as one present cell does not parse; a missing cell becomes \<^verbatim>\<open>NaT\<close>, and a
  column without a present cell becomes a column of \<^verbatim>\<open>NaT\<close>.
\<close>

definition present :: "'a option list \<Rightarrow> 'a list" where
  "present xs = concat (map (\<lambda>x. case x of None \<Rightarrow> [] | Some v \<Rightarrow> [v]) xs)"

definition to_datetime ::
  "(string \<Rightarrow> 'f) \<Rightarrow> ('f \<Rightarrow> string \<Rightarrow> int option) \<Rightarrow> string option list
     \<Rightarrow> error + int option list" where
  "to_datetime guess_format parse_with xs =
     (case present xs of
        [] \<Rightarrow> Inr (map (\<lambda>x. None) xs)
      | s0 # rest \<Rightarrow>
          let fmt = guess_format s0 in
          if list_all (\<lambda>s. parse_with fmt s \<noteq> None) (present xs)
          then Inr (map (\<lambda>x. Option.bind x (parse_with fmt)) xs)
          else Inl ValueError)"

text \<open>\<^verbatim>\<open>Series.str.replace(pat, '')\<close> for a one-character literal pattern: every
  occurrence is removed from every present cell.\<close>

definition str_replace :: "char \<Rightarrow> string option list \<Rightarrow> string option list" where
  "str_replace pat xs = map (map_option (filter (\<lambda>ch. ch \<noteq> pat))) xs"

text \<open>
  \<^verbatim>\<open>pd.to_numeric(series)\<close> on a text column. The number parser of the library is
  the parameter \<open>parse_number\<close>: a string parses as an integer, as a float (\<open>FloatVal None\<close>
  is the float \<^verbatim>\<open>NaN\<close>, which the text \<^verbatim>\<open>nan\<close> parses to), or not at all. The call
  raises \<^verbatim>\<open>ValueError\<close> as soon as one present cell does not parse. The result is an
  \<^verbatim>\<open>int64\<close> column when every cell is present and an integer, else \<^verbatim>\<open>float64\<close>.
\<close>

datatype number = IntVal int | FloatVal "real option"

fun is_int :: "number \<Rightarrow> bool" where
  "is_int (IntVal i) = True"
| "is_int (FloatVal v) = False"

fun as_int :: "number \<Rightarrow> int" where
  "as_int (IntVal i) = i"
| "as_int (FloatVal v) = 0"

fun as_float :: "number \<Rightarrow> real option" where
  "as_float (IntVal i) = Some (real_of_int i)"
| "as_float (FloatVal v) = v"

definition parses :: "(string \<Rightarrow> number option) \<Rightarrow> string option \<Rightarrow> bool" where
  "parses parse_number x = (case x of None \<Rightarrow> True | Some s \<Rightarrow> parse_number s \<noteq> None)"

definition number_of :: "(string \<Rightarrow> number option) \<Rightarrow> string option \<Rightarrow> number" where
  "number_of parse_number x =
     (case Option.bind x parse_number of None \<Rightarrow> FloatVal None | Some n \<Rightarrow> n)"

definition to_numeric ::
  "(string \<Rightarrow> number option) \<Rightarrow> string option list \<Rightarrow> error + column" where
  "to_numeric parse_number xs =
     (if list_all (parses parse_number) xs
      then
        let ns = map (number_of parse_number) xs in
        if list_all is_int ns then Inr (Int64Col (map as_int ns))
        else Inr (Float64Col (map as_float ns))
      else Inl ValueError)"

text \<open>
  The body of the loop, for one column: only an \<^verbatim>\<open>object\<close> column is tried, first as
  dates, then (on \<^verbatim>\<open>ValueError\<close>) as numbers after \<^verbatim>\<open>$\<close> and \<^verbatim>\<open>,\<close> are removed; the
  bare \<^verbatim>\<open>except\<close> leaves the column as it is.
\<close>

fun standardize_column ::
  "(string \<Rightarrow> 'f) \<Rightarrow> ('f \<Rightarrow> string \<Rightarrow> int option) \<Rightarrow> (string \<Rightarrow> number option)
     \<Rightarrow> column \<Rightarrow> column" where
  "standardize_column guess_format parse_with parse_number (ObjectCol xs) =
     (case to_datetime guess_format parse_with xs of
        Inr ts \<Rightarrow> DatetimeCol ts
      | Inl e \<Rightarrow>
          (case to_numeric parse_number (str_replace (CHR '','') (str_replace (CHR ''$'') xs)) of
             Inr c \<Rightarrow> c
           | Inl e' \<Rightarrow> ObjectCol xs))"
| "standardize_column guess_format parse_with parse_number c = c"

text \<open>The loop \<^verbatim>\<open>for column in df.columns\<close> rewrites the columns one by one, in place.\<close>

definition standardize_datatypes ::
  "(string \<Rightarrow> 'f) \<Rightarrow> ('f \<Rightarrow> string \<Rightarrow> int option) \<Rightarrow> (string \<Rightarrow> number option)
     \<Rightarrow> dataframe \<Rightarrow> dataframe" where
  "standardize_datatypes guess_format parse_with parse_number df =
     df\<lparr>cols := map (\<lambda>(name, c). (name, standardize_column guess_format parse_with parse_number c))
                  (cols df)\<rparr>"

section \<open>Step 3: handle_missing_values\<close>

text \<open>\<^verbatim>\<open>df.select_dtypes(include=['int64', 'float64'])\<close> and
  \<^verbatim>\<open>df.select_dtypes(include=['object'])\<close>.\<close>

fun is_numeric :: "column \<Rightarrow> bool" where
  "is_numeric (Int64Col xs) = True"
| "is_numeric (Float64Col xs) = True"
| "is_numeric c = False"

fun is_object :: "column \<Rightarrow> bool" where
  "is_object (ObjectCol xs) = True"
| "is_object c = False"

text \<open>The cells of a numeric column as floats, and of a text column as strings.\<close>

fun floats :: "column \<Rightarrow> real option list" where
  "floats (Int64Col xs) = map (\<lambda>i. Some (real_of_int i)) xs"
| "floats (Float64Col xs) = xs"
| "floats c = []"

fun strings :: "column \<Rightarrow> string option list" where
  "strings (ObjectCol xs) = xs"
| "strings c = []"

text \<open>The median of the present values: the middle one, or the mean of the two middle
  ones; \<open>None\<close> (\<^verbatim>\<open>NaN\<close>) when there is none.\<close>

definition median :: "real list \<Rightarrow> real option" where
  "median xs =
     (if xs = [] then None
      else let s = sort xs; n = length s
           in Some ((s ! ((n - 1) div 2) + s ! (n div 2)) / 2))"

text \<open>
  The statistic of \<^verbatim>\<open>strategy='most_frequent'\<close> on an array of strings: the library
  counts the present values, takes the highest count and returns the smallest value
  that has it ("if there is more than one such value, only the smallest is returned",
  in the order of Python strings); \<open>None\<close> (\<^verbatim>\<open>NaN\<close>) when no value is present.
\<close>

definition most_frequent :: "string list \<Rightarrow> string option" where
  "most_frequent xs =
     (let most_frequent_count = fold max (map (count_list xs) xs) 0
      in case filter (\<lambda>v. count_list xs v = most_frequent_count) xs of
           [] \<Rightarrow> None
         | v # vs \<Rightarrow> Some (fold min vs v))"

text \<open>
  \<^verbatim>\<open>SimpleImputer(strategy=...).fit_transform(X)\<close> on the block \<open>X\<close> of the selected
  columns (\<open>n\<close> rows). A block without rows is refused with \<^verbatim>\<open>ValueError\<close>. A column
  whose statistic is \<^verbatim>\<open>NaN\<close> (no present value) is dropped from the output; in every
  other column each missing cell is replaced by the statistic.
\<close>

definition fill :: "'a \<Rightarrow> 'a option list \<Rightarrow> 'a list" where
  "fill stat xs = map (\<lambda>x. case x of None \<Rightarrow> stat | Some v \<Rightarrow> v) xs"

definition fit_transform ::
  "('a list \<Rightarrow> 'a option) \<Rightarrow> nat \<Rightarrow> 'a option list list \<Rightarrow> error + 'a list list" where
  "fit_transform statistic n X =
     (if n = 0 then Inl ValueError
      else Inr (concat (map (\<lambda>xs. case statistic (present xs) of
                                     None \<Rightarrow> []
                                   | Some stat \<Rightarrow> [fill stat xs]) X)))"

text \<open>
  \<^verbatim>\<open>df[key] = array\<close> for a list \<open>key\<close> of column names (here: the columns that \<open>sel\<close>
  selects) and a two-dimensional array: \<^verbatim>\<open>ValueError\<close> unless the array has one
  column per name; then each named column is replaced by the array's column, as a new
  array of the array's dtype.
\<close>

fun assign :: "(column \<Rightarrow> bool) \<Rightarrow> column list \<Rightarrow> (string \<times> column) list
                 \<Rightarrow> (string \<times> column) list" where
  "assign sel news [] = []"
| "assign sel news ((name, c) # rest) =
     (if sel c
      then (case news of
              [] \<Rightarrow> (name, c) # assign sel news rest
            | v # vs \<Rightarrow> (name, v) # assign sel vs rest)
      else (name, c) # assign sel news rest)"

definition setitem :: "(column \<Rightarrow> bool) \<Rightarrow> column list \<Rightarrow> dataframe \<Rightarrow> error + dataframe" where
  "setitem sel news df =
     (if length news \<noteq> length (filter sel (map snd (cols df))) then Inl ValueError
      else Inr (df\<lparr>cols := assign sel news (cols df)\<rparr>))"

text \<open>
  The two halves of \<^verbatim>\<open>handle_missing_values\<close>. The numeric block is handed to the
  imputer as floats and comes back as a \<^verbatim>\<open>float64\<close> array, the text block as an
  \<^verbatim>\<open>object\<close> array; an exception of the imputer or of the assignment leaves the
  function.
\<close>

definition impute_numeric :: "dataframe \<Rightarrow> error + dataframe" where
  "impute_numeric df =
     (let numeric_columns = filter is_numeric (map snd (cols df)) in
      if length numeric_columns > 0
      then (case fit_transform median (nrows df) (map floats numeric_columns) of
              Inl e \<Rightarrow> Inl e
            | Inr X \<Rightarrow> setitem is_numeric (map (\<lambda>xs. Float64Col (map Some xs)) X) df)
      else Inr df)"

definition impute_categorical :: "dataframe \<Rightarrow> error + dataframe" where
  "impute_categorical df =
     (let categorical_columns = filter is_object (map snd (cols df)) in
      if length categorical_columns > 0
      then (case fit_transform most_frequent (nrows df) (map strings categorical_columns) of
              Inl e \<Rightarrow> Inl e
            | Inr X \<Rightarrow> setitem is_object (map (\<lambda>xs. ObjectCol (map Some xs)) X) df)
      else Inr df)"

definition handle_missing_values :: "dataframe \<Rightarrow> error + dataframe" where
  "handle_missing_values df =
     (case impute_numeric df of
        Inl e \<Rightarrow> Inl e
      | Inr df' \<Rightarrow> impute_categorical df')"

section \<open>Step 4: remove_outliers\<close>

text \<open>
  \<^verbatim>\<open>Series.quantile(q)\<close>: linear interpolation between the two order statistics
  around the position \<open>q * (n - 1)\<close> of the sorted present values; \<^verbatim>\<open>NaN\<close> when no
  value is present.
\<close>

definition quantile :: "real \<Rightarrow> real list \<Rightarrow> real option" where
  "quantile q xs =
     (if xs = [] then None
      else let s = sort xs;
               pos = q * real (length s - 1);
               lo = nat \<lfloor>pos\<rfloor>;
               hi = min (lo + 1) (length s - 1)
           in Some (s ! lo + (s ! hi - s ! lo) * (pos - real lo)))"

text \<open>Float arithmetic and comparison with \<^verbatim>\<open>NaN\<close>: an operation on \<^verbatim>\<open>NaN\<close> is
  \<^verbatim>\<open>NaN\<close>, a comparison with \<^verbatim>\<open>NaN\<close> is false.\<close>

definition fsub :: "real option \<Rightarrow> real option \<Rightarrow> real option" where
  "fsub a b = (case (a, b) of (Some x, Some y) \<Rightarrow> Some (x - y) | _ \<Rightarrow> None)"

definition fadd :: "real option \<Rightarrow> real option \<Rightarrow> real option" where
  "fadd a b = (case (a, b) of (Some x, Some y) \<Rightarrow> Some (x + y) | _ \<Rightarrow> None)"

definition fmul :: "real option \<Rightarrow> real option \<Rightarrow> real option" where
  "fmul a b = (case (a, b) of (Some x, Some y) \<Rightarrow> Some (x * y) | _ \<Rightarrow> None)"

definition flt :: "real option \<Rightarrow> real option \<Rightarrow> bool" where
  "flt a b = (case (a, b) of (Some x, Some y) \<Rightarrow> x < y | _ \<Rightarrow> False)"

definition fle :: "real option \<Rightarrow> real option \<Rightarrow> bool" where
  "fle a b = (case (a, b) of (Some x, Some y) \<Rightarrow> x \<le> y | _ \<Rightarrow> False)"

text \<open>
  \<^verbatim>\<open>Series.where(cond, other)\<close> for a float scalar \<open>other\<close>: a cell whose condition is
  false is replaced by \<open>other\<close>. An \<^verbatim>\<open>int64\<close> column stays as it is when no cell is
  replaced, keeps its dtype when \<open>other\<close> is a whole number, and becomes \<^verbatim>\<open>float64\<close>
  otherwise.
\<close>

fun where_col :: "bool list \<Rightarrow> real \<Rightarrow> column \<Rightarrow> column" where
  "where_col cond other (Float64Col xs) =
     Float64Col (map (\<lambda>(b, x). if b then x else Some other) (zip cond xs))"
| "where_col cond other (Int64Col xs) =
     (if list_all id cond then Int64Col xs
      else if real_of_int \<lfloor>other\<rfloor> = other
      then Int64Col (map (\<lambda>(b, x). if b then x else \<lfloor>other\<rfloor>) (zip cond xs))
      else Float64Col (map (\<lambda>(b, x). if b then Some (real_of_int x) else Some other) (zip cond xs)))"
| "where_col cond other c = c"

text \<open>
  \<^verbatim>\<open>Series.clip(lower, upper)\<close> with scalar bounds: a \<^verbatim>\<open>NaN\<close> bound is no bound, two
  bounds are put in order, and the column is cut with two \<^verbatim>\<open>where\<close> calls whose
  conditions are computed on the column as it was; a missing cell is kept.
\<close>

definition clip :: "real option \<Rightarrow> real option \<Rightarrow> column \<Rightarrow> column" where
  "clip lower upper c =
     (let (lower, upper) =
            (case (lower, upper) of
               (Some l, Some u) \<Rightarrow> (Some (min l u), Some (max l u))
             | p \<Rightarrow> p);
          mask = isnull c;
          result =
            (case lower of
               None \<Rightarrow> c
             | Some l \<Rightarrow> where_col (map (\<lambda>(m, x). m \<or> fle (Some l) x) (zip mask (floats c))) l c);
          result =
            (case upper of
               None \<Rightarrow> result
             | Some u \<Rightarrow> where_col (map (\<lambda>(m, x). m \<or> fle x (Some u)) (zip mask (floats c))) u result)
      in result)"

text \<open>The bounds of one column, as the loop body computes them.\<close>

definition lower_bound :: "column \<Rightarrow> real option" where
  "lower_bound c =
     (let Q1 = quantile 0.25 (present (floats c));
          Q3 = quantile 0.75 (present (floats c));
          IQR = fsub Q3 Q1
      in fsub Q1 (fmul (Some 1.5) IQR))"

definition upper_bound :: "column \<Rightarrow> real option" where
  "upper_bound c =
     (let Q1 = quantile 0.25 (present (floats c));
          Q3 = quantile 0.75 (present (floats c));
          IQR = fsub Q3 Q1
      in fadd Q3 (fmul (Some 1.5) IQR))"

text \<open>The number of rows whose cell is below the lower or above the upper bound.\<close>

definition count_outliers :: "column \<Rightarrow> nat" where
  "count_outliers c =
     length (filter (\<lambda>x. flt x (lower_bound c) \<or> flt (upper_bound c) x) (floats c))"

text \<open>
  The loop over the numeric columns (selected once, before the loop; clipping never turns
  a numeric column into another kind): each is replaced by its clipped version, and its
  number of outliers is stored under its name when it is positive.
\<close>

fun remove_outliers_loop ::
  "(string \<times> column) list \<Rightarrow> (string \<rightharpoonup> nat) \<Rightarrow> (string \<times> column) list \<times> (string \<rightharpoonup> nat)" where
  "remove_outliers_loop [] outliers_map = ([], outliers_map)"
| "remove_outliers_loop ((name, c) # rest) outliers_map =
     (if is_numeric c
      then
        let outliers = count_outliers c;
            c' = clip (lower_bound c) (upper_bound c) c;
            outliers_map' =
              (if outliers > 0 then outliers_map(name \<mapsto> outliers) else outliers_map);
            (rest', out) = remove_outliers_loop rest outliers_map'
        in ((name, c') # rest', out)
      else
        let (rest', out) = remove_outliers_loop rest outliers_map
        in ((name, c) # rest', out))"

definition remove_outliers :: "dataframe \<Rightarrow> dataframe \<times> (string \<rightharpoonup> nat)" where
  "remove_outliers df =
     (let (cols', outliers_map) = remove_outliers_loop (cols df) Map.empty
      in (df\<lparr>cols := cols'\<rparr>, outliers_map))"

section \<open>The pipeline\<close>

text \<open>
  The five steps in order, on one table and one report. An exception of a step leaves
  the pipeline, and then nothing is returned.
\<close>

definition automated_cleaning_pipeline ::
  "(dataframe \<Rightarrow> nat) \<Rightarrow> (string \<Rightarrow> 'f) \<Rightarrow> ('f \<Rightarrow> string \<Rightarrow> int option)
     \<Rightarrow> (string \<Rightarrow> number option) \<Rightarrow> dataframe \<Rightarrow> error + dataframe \<times> cleaning_report" where
  "automated_cleaning_pipeline mem guess_format parse_with parse_number df =
     (let original_shape = shape df;
          cleaning_report = \<lparr> initial_quality = None, outliers_removed = None, validation = None \<rparr>;
          (df, quality) = check_data_quality mem df;
          cleaning_report = cleaning_report\<lparr>initial_quality := Some quality\<rparr>;
          df = standardize_datatypes guess_format parse_with parse_number df
      in case handle_missing_values df of
           Inl e \<Rightarrow> Inl e
         | Inr df \<Rightarrow>
             let (df, outliers) = remove_outliers df;
                 cleaning_report = cleaning_report\<lparr>outliers_removed := Some outliers\<rparr>
             in case validate_cleaning df original_shape cleaning_report of
                  (df, Inl e) \<Rightarrow> Inl e
                | (df, Inr cleaning_report) \<Rightarrow> Inr (df, cleaning_report))"

section \<open>Auxiliary definitions\<close>

text \<open>Two tables have the same number of rows, the same column names in the same order,
  and columns of the same lengths.\<close>

definition same_rows_and_columns :: "dataframe \<Rightarrow> dataframe \<Rightarrow> bool" where
  "same_rows_and_columns df df' \<longleftrightarrow>
     nrows df' = nrows df \<and> columns df' = columns df \<and>
     map (\<lambda>(name, c). col_len c) (cols df') = map (\<lambda>(name, c). col_len c) (cols df)"

text \<open>What the imputer does to one column when it returns.\<close>

definition imputed :: "column \<Rightarrow> column" where
  "imputed c =
     (if is_numeric c then
        (case median (present (floats c)) of
           None \<Rightarrow> c | Some m \<Rightarrow> Float64Col (map Some (fill m (floats c))))
      else if is_object c then
        (case most_frequent (present (strings c)) of
           None \<Rightarrow> c | Some m \<Rightarrow> ObjectCol (map Some (fill m (strings c))))
      else c)"

text \<open>What the capper does to one column.\<close>

definition capped :: "column \<Rightarrow> column" where
  "capped c = (if is_numeric c then clip (lower_bound c) (upper_bound c) c else c)"

text \<open>The tie-break as the specification words it: among the most frequent values, the
  one met first in column order.\<close>

definition most_frequent_first_encountered :: "string list \<Rightarrow> string option" where
  "most_frequent_first_encountered xs =
     (let most_frequent_count = fold max (map (count_list xs) xs) 0
      in find (\<lambda>v. count_list xs v = most_frequent_count) xs)"


text \<open>Instances of the parser parameters, to run the model on concrete tables: a date
  parser that knows one ISO date, and a number parser for plain decimal numerals.\<close>

definition one_date :: "unit \<Rightarrow> string \<Rightarrow> int option" where
  "one_date fmt s = (if s = ''2024-01-05'' then Some 1704412800000000000 else None)"

definition plain_number :: "string \<Rightarrow> number option" where
  "plain_number s =
     (if s \<noteq> [] \<and> list_all (\<lambda>ch. CHR ''0'' \<le> ch \<and> ch \<le> CHR ''9'') s
      then Some (IntVal (fold (\<lambda>ch n. 10 * n + (of_char ch - 48)) s 0))
      else None)"

text \<open>Example tables: a shop table as it is loaded, after the type normalizer, and after
  the imputer.\<close>

definition shop :: dataframe where
  "shop = \<lparr> nrows = 5, cols =
     [(''day'', ObjectCol [Some ''2024-01-05'', None, Some ''2024-01-05'', Some ''2024-01-05'', None]),
      (''price'', ObjectCol [Some ''$1,200'', Some ''$350'', None, Some ''$40'', Some ''$350'']),
      (''category'', ObjectCol [Some ''a'', Some ''b'', Some ''b'', None, Some ''b'']),
      (''qty'', Int64Col [1, 2, 3, 4, 2])] \<rparr>"

definition shop_standardized :: dataframe where
  "shop_standardized = \<lparr> nrows = 5, cols =
     [(''day'', DatetimeCol [Some 1704412800000000000, None, Some 1704412800000000000,
                            Some 1704412800000000000, None]),
      (''price'', Float64Col [Some 1200, Some 350, None, Some 40, Some 350]),
      (''category'', ObjectCol [Some ''a'', Some ''b'', Some ''b'', None, Some ''b'']),
      (''qty'', Int64Col [1, 2, 3, 4, 2])] \<rparr>"

definition shop_imputed :: dataframe where
  "shop_imputed = \<lparr> nrows = 5, cols =
     [(''day'', DatetimeCol [Some 1704412800000000000, None, Some 1704412800000000000,
                            Some 1704412800000000000, None]),
      (''price'', Float64Col [Some 1200, Some 350, Some 350, Some 40, Some 350]),
      (''category'', ObjectCol [Some ''a'', Some ''b'', Some ''b'', Some ''b'', Some ''b'']),
      (''qty'', Float64Col [Some 1, Some 2, Some 3, Some 4, Some 2])] \<rparr>"

section \<open>Properties\<close>

subsection \<open>Report dictionaries\<close>

text \<open>A dictionary built from a list of entries looks a key up in the reversed list.\<close>

lemma to_dict_fold:
  "fold (\<lambda>(k, v) m. m(k \<mapsto> v)) kvs m = m ++ map_of (rev kvs)"
proof (induction kvs arbitrary: m)
  case Nil
  show ?case by simp
next
  case (Cons kv kvs)
  obtain k v where kv: "kv = (k, v)" by (cases kv)
  have "fold (\<lambda>(k, v) m. m(k \<mapsto> v)) (kv # kvs) m
        = fold (\<lambda>(k, v) m. m(k \<mapsto> v)) kvs (m(k \<mapsto> v))"
    by (simp add: kv)
  also have "\<dots> = m(k \<mapsto> v) ++ map_of (rev kvs)"
    by (rule Cons.IH)
  also have "\<dots> = m ++ map_of (rev (kv # kvs))"
    by (auto simp: kv map_add_def fun_eq_iff split: option.splits)
  finally show ?case .
qed

lemma to_dict_map_of: "to_dict kvs = map_of (rev kvs)"
  by (simp add: to_dict_def to_dict_fold)

lemma to_dict_Some: "to_dict kvs k = Some v \<Longrightarrow> (k, v) \<in> set kvs"
  using map_of_SomeD [of "rev kvs" k v] by (simp add: to_dict_map_of)

lemma to_dict_dom: "k \<in> fst ` set kvs \<Longrightarrow> \<exists>v. to_dict kvs k = Some v"
  using map_of_eq_None_iff [of "rev kvs" k] by (cases "to_dict kvs k") (auto simp: to_dict_map_of)

lemma col_len_0_isnull: "col_len c = 0 \<Longrightarrow> isnull c = []"
  by (simp add: col_len_def isnull_def)

subsection \<open>The quality auditor and the validator\<close>

text \<open>
  Claim C8. On a table without rows, whatever its columns, the quality report has
  \<open>total_rows = 0\<close>, \<open>duplicates = 0\<close> and the missing-value count 0 for every column.
  \<^verbatim>\<open>check_data_quality\<close> has no error result: none of its four computations can raise.
\<close>

theorem auditor_empty_table:
  assumes wf: "rectangular df" and empty: "nrows df = 0"
  shows "total_rows (snd (check_data_quality mem df)) = 0
       \<and> duplicates (snd (check_data_quality mem df)) = 0
       \<and> (\<forall>name \<in> set (columns df). missing_values (snd (check_data_quality mem df)) name = Some 0)"
proof -
  have zero: "\<And>k v. (k, v) \<in> set (isnull_sum df) \<Longrightarrow> v = 0"
    using wf empty by (auto simp: isnull_sum_def rectangular_def list_all_iff col_len_0_isnull)
  have "missing_values (snd (check_data_quality mem df)) name = Some 0"
    if "name \<in> set (columns df)" for name
  proof -
    have "name \<in> fst ` set (isnull_sum df)"
      using that by (force simp: isnull_sum_def columns_def)
    then obtain v where v: "to_dict (isnull_sum df) name = Some v"
      using to_dict_dom by fastforce
    with zero [OF to_dict_Some [OF v]] show ?thesis
      by (simp add: check_data_quality_def)
  qed
  moreover have "duplicates (snd (check_data_quality mem df)) = 0"
    using empty by (simp add: check_data_quality_def duplicated_def)
  moreover have "total_rows (snd (check_data_quality mem df)) = 0"
    using empty by (simp add: check_data_quality_def)
  ultimately show ?thesis by blast
qed

text \<open>
  C8 on a table with two columns and no row.
\<close>

theorem auditor_empty_table_witness:
  "rectangular \<lparr>nrows = 0, cols = [(''price'', ObjectCol []), (''qty'', Int64Col [])]\<rparr>
   \<and> total_rows (snd (check_data_quality (\<lambda>d. 0)
        \<lparr>nrows = 0, cols = [(''price'', ObjectCol []), (''qty'', Int64Col [])]\<rparr>)) = 0
   \<and> duplicates (snd (check_data_quality (\<lambda>d. 0)
        \<lparr>nrows = 0, cols = [(''price'', ObjectCol []), (''qty'', Int64Col [])]\<rparr>)) = 0
   \<and> missing_values (snd (check_data_quality (\<lambda>d. 0)
        \<lparr>nrows = 0, cols = [(''price'', ObjectCol []), (''qty'', Int64Col [])]\<rparr>)) ''price'' = Some 0
   \<and> missing_values (snd (check_data_quality (\<lambda>d. 0)
        \<lparr>nrows = 0, cols = [(''price'', ObjectCol []), (''qty'', Int64Col [])]\<rparr>)) ''qty'' = Some 0"
proof -
  have wf: "rectangular \<lparr>nrows = 0, cols = [(''price'', ObjectCol []), (''qty'', Int64Col [])]\<rparr>"
    by (simp add: rectangular_def col_len_def)
  show ?thesis
    using wf auditor_empty_table [OF wf, of "\<lambda>d. 0"] by (simp add: columns_def)
qed

text \<open>
  Claim C9. The table after \<^verbatim>\<open>check_data_quality\<close> and after
  \<^verbatim>\<open>validate_cleaning\<close> (also when it raises) is the table before the call.
\<close>

theorem auditor_validator_read_only:
  "fst (check_data_quality mem df) = df
   \<and> fst (validate_cleaning df original_shape cleaning_report) = df"
  by (simp add: check_data_quality_def validate_cleaning_def Let_def)

subsection \<open>The type normalizer\<close>

lemma to_datetime_length: "to_datetime g p xs = Inr ts \<Longrightarrow> length ts = length xs"
  by (auto simp: to_datetime_def Let_def split: list.splits if_splits)

lemma to_numeric_col_len: "to_numeric n xs = Inr c \<Longrightarrow> col_len c = length xs"
  by (auto simp: to_numeric_def Let_def col_len_def split: if_splits)

lemma str_replace_length: "length (str_replace ch xs) = length xs"
  by (simp add: str_replace_def)

lemma standardize_column_len: "col_len (standardize_column g p n c) = col_len c"
proof (cases c)
  case (ObjectCol xs)
  then show ?thesis
    by (auto simp: col_len_def str_replace_length split: sum.splits
             dest!: to_datetime_length to_numeric_col_len)
qed simp_all

lemma standardize_same: "same_rows_and_columns df (standardize_datatypes g p n df)"
  by (simp add: same_rows_and_columns_def standardize_datatypes_def columns_def
                standardize_column_len case_prod_unfold comp_def)

lemma to_datetime_Inr:
  assumes "to_datetime g p xs = Inr ts" and "present xs = s0 # rest" and "s \<in> set (present xs)"
  shows "p (g s0) s \<noteq> None"
  using assms by (auto simp: to_datetime_def Let_def list_all_iff split: if_splits)

lemma to_datetime_Inl:
  assumes "present xs = s0 # rest" and "s \<in> set (present xs)" and "p (g s0) s = None"
  shows "to_datetime g p xs = Inl ValueError"
  using assms by (auto simp: to_datetime_def Let_def list_all_iff)

lemma parses_present:
  "list_all (parses n) xs \<longleftrightarrow> (\<forall>s \<in> set (present xs). n s \<noteq> None)"
  by (induction xs) (auto simp: parses_def present_def split: option.splits)

lemma to_numeric_Inr:
  assumes "to_numeric n xs = Inr c"
  shows "is_numeric c" and "\<forall>s \<in> set (present xs). n s \<noteq> None"
  using assms by (auto simp: to_numeric_def Let_def parses_present split: if_splits)

lemma to_numeric_Inl:
  assumes "s \<in> set (present xs)" and "n s = None"
  shows "to_numeric n xs = Inl ValueError"
  using assms by (auto simp: to_numeric_def parses_present)

lemma standardize_column_object:
  fixes xs :: "string option list"
  defines "stripped \<equiv> str_replace (CHR '','') (str_replace (CHR ''$'') xs)"
  shows "(\<forall>ts. standardize_column g p n (ObjectCol xs) = DatetimeCol ts \<longrightarrow>
            (\<forall>s0 rest. present xs = s0 # rest \<longrightarrow> (\<forall>s \<in> set (present xs). p (g s0) s \<noteq> None)))"
    and "is_numeric (standardize_column g p n (ObjectCol xs)) \<longrightarrow>
            (\<forall>s \<in> set (present stripped). n s \<noteq> None)"
    and "(\<exists>s0 rest. present xs = s0 # rest \<and> (\<exists>s \<in> set (present xs). p (g s0) s = None)) \<and>
         (\<exists>s \<in> set (present stripped). n s = None) \<longrightarrow>
            standardize_column g p n (ObjectCol xs) = ObjectCol xs"
proof -
  show "\<forall>ts. standardize_column g p n (ObjectCol xs) = DatetimeCol ts \<longrightarrow>
            (\<forall>s0 rest. present xs = s0 # rest \<longrightarrow> (\<forall>s \<in> set (present xs). p (g s0) s \<noteq> None))"
  proof (intro allI impI ballI)
    fix ts s0 rest s
    assume c: "standardize_column g p n (ObjectCol xs) = DatetimeCol ts"
      and pr: "present xs = s0 # rest" and s: "s \<in> set (present xs)"
    have "\<exists>ts'. to_datetime g p xs = Inr ts'"
    proof (cases "to_datetime g p xs")
      case (Inl e)
      with c to_numeric_Inr(1) [of n stripped] show ?thesis
        by (auto simp: stripped_def split: sum.splits)
    qed blast
    then show "p (g s0) s \<noteq> None" using to_datetime_Inr [OF _ pr s] by blast
  qed
  show "is_numeric (standardize_column g p n (ObjectCol xs)) \<longrightarrow>
            (\<forall>s \<in> set (present stripped). n s \<noteq> None)"
    using to_numeric_Inr(2) [of n stripped]
    by (auto simp: stripped_def split: sum.splits)
  show "(\<exists>s0 rest. present xs = s0 # rest \<and> (\<exists>s \<in> set (present xs). p (g s0) s = None)) \<and>
         (\<exists>s \<in> set (present stripped). n s = None) \<longrightarrow>
            standardize_column g p n (ObjectCol xs) = ObjectCol xs"
    using to_datetime_Inl [of xs _ _ _ p g] to_numeric_Inl [of _ stripped n]
    by (auto simp: stripped_def)
qed

lemma standardize_column_other: "\<not> is_object c \<Longrightarrow> standardize_column g p n c = c"
  by (cases c) simp_all

lemma plain_number_examples:
  "plain_number ''1200'' = Some (IntVal 1200)" "plain_number ''350'' = Some (IntVal 350)"
  "plain_number ''40'' = Some (IntVal 40)" "plain_number ''abc'' = None"
  by (simp_all add: plain_number_def)

text \<open>The type normalizer on the shop table, with the example parsers.\<close>

lemma shop_standardize:
  "standardize_datatypes (\<lambda>s. ()) one_date plain_number shop = shop_standardized"
  by (simp add: shop_def shop_standardized_def standardize_datatypes_def to_datetime_def
                to_numeric_def str_replace_def present_def one_date_def plain_number_def
                parses_def number_of_def)

text \<open>
  Claim C4. The type normalizer leaves every column that is not a text column alone. A text
  column either stays as it is, or becomes temporal, or becomes numeric. It becomes
  temporal only if every present value parses in the target format; it becomes numeric
  only if every present value parses as a number once \<^verbatim>\<open>$\<close> and \<^verbatim>\<open>,\<close> are removed;
  and when one present value is no date and one is no number, the column stays as it is.
  For parsers that read \<^verbatim>\<open>$1,200\<close> as no date, \<^verbatim>\<open>1200\<close>, \<^verbatim>\<open>350\<close>, \<^verbatim>\<open>40\<close> as these
  integers and \<^verbatim>\<open>abc\<close> as no number, the column \<open>[$1,200, $350, $40]\<close> becomes the integer
  column \<open>[1200, 350, 40]\<close> and the column \<open>[$1,200, abc, $40]\<close> is unchanged.
\<close>

theorem normalizer_all_or_nothing:
  "(\<forall>i name c. i < length (cols df) \<and> cols df ! i = (name, c) \<longrightarrow>
      (\<exists>c'. cols (standardize_datatypes guess_format parse_with parse_number df) ! i = (name, c')
         \<and> (\<not> is_object c \<longrightarrow> c' = c)
         \<and> (\<forall>xs. c = ObjectCol xs \<longrightarrow>
               (c' = ObjectCol xs \<or> (\<exists>ts. c' = DatetimeCol ts) \<or> is_numeric c')
             \<and> (\<forall>ts. c' = DatetimeCol ts \<longrightarrow>
                   (\<forall>s0 rest. present xs = s0 # rest \<longrightarrow>
                      (\<forall>s \<in> set (present xs). parse_with (guess_format s0) s \<noteq> None)))
             \<and> (is_numeric c' \<longrightarrow>
                   (\<forall>s \<in> set (present (str_replace (CHR '','') (str_replace (CHR ''$'') xs))).
                      parse_number s \<noteq> None))
             \<and> ((\<exists>s0 rest. present xs = s0 # rest
                    \<and> (\<exists>s \<in> set (present xs). parse_with (guess_format s0) s = None))
                \<and> (\<exists>s \<in> set (present (str_replace (CHR '','') (str_replace (CHR ''$'') xs))).
                      parse_number s = None)
                \<longrightarrow> c' = ObjectCol xs))))
   \<and> (parse_with (guess_format ''$1,200'') ''$1,200'' = None
        \<and> parse_number ''1200'' = Some (IntVal 1200)
        \<and> parse_number ''350'' = Some (IntVal 350)
        \<and> parse_number ''40'' = Some (IntVal 40) \<longrightarrow>
      standardize_datatypes guess_format parse_with parse_number
        \<lparr>nrows = 3, cols = [(''price'', ObjectCol [Some ''$1,200'', Some ''$350'', Some ''$40''])]\<rparr>
      = \<lparr>nrows = 3, cols = [(''price'', Int64Col [1200, 350, 40])]\<rparr>)
   \<and> (parse_with (guess_format ''$1,200'') ''$1,200'' = None
        \<and> parse_number ''abc'' = None \<longrightarrow>
      standardize_datatypes guess_format parse_with parse_number
        \<lparr>nrows = 3, cols = [(''price'', ObjectCol [Some ''$1,200'', Some ''abc'', Some ''$40''])]\<rparr>
      = \<lparr>nrows = 3, cols = [(''price'', ObjectCol [Some ''$1,200'', Some ''abc'', Some ''$40''])]\<rparr>)"
  (is "?general \<and> ?ex1 \<and> ?ex2")
proof (intro conjI)
  show ?general
  proof (intro allI impI)
    fix i name c
    assume col: "i < length (cols df) \<and> cols df ! i = (name, c)"
    let ?c' = "standardize_column guess_format parse_with parse_number c"
    have c': "cols (standardize_datatypes guess_format parse_with parse_number df) ! i = (name, ?c')"
      using col by (simp add: standardize_datatypes_def)
    have other: "\<not> is_object c \<longrightarrow> ?c' = c"
      by (simp add: standardize_column_other)
    have obj: "(?c' = ObjectCol xs \<or> (\<exists>ts. ?c' = DatetimeCol ts) \<or> is_numeric ?c')
             \<and> (\<forall>ts. ?c' = DatetimeCol ts \<longrightarrow>
                   (\<forall>s0 rest. present xs = s0 # rest \<longrightarrow>
                      (\<forall>s \<in> set (present xs). parse_with (guess_format s0) s \<noteq> None)))
             \<and> (is_numeric ?c' \<longrightarrow>
                   (\<forall>s \<in> set (present (str_replace (CHR '','') (str_replace (CHR ''$'') xs))).
                      parse_number s \<noteq> None))
             \<and> ((\<exists>s0 rest. present xs = s0 # rest
                    \<and> (\<exists>s \<in> set (present xs). parse_with (guess_format s0) s = None))
                \<and> (\<exists>s \<in> set (present (str_replace (CHR '','') (str_replace (CHR ''$'') xs))).
                      parse_number s = None)
                \<longrightarrow> ?c' = ObjectCol xs)" if c: "c = ObjectCol xs" for xs
    proof -
      have "?c' = ObjectCol xs \<or> (\<exists>ts. ?c' = DatetimeCol ts) \<or> is_numeric ?c'"
        using to_numeric_Inr(1) [of parse_number "str_replace (CHR '','') (str_replace (CHR ''$'') xs)"]
        by (auto simp: c split: sum.splits)
      then show ?thesis
        using standardize_column_object [where g = guess_format and p = parse_with
              and n = parse_number and xs = xs]
        unfolding c by blast
    qed
    show "\<exists>c'. cols (standardize_datatypes guess_format parse_with parse_number df) ! i = (name, c')
         \<and> (\<not> is_object c \<longrightarrow> c' = c)
         \<and> (\<forall>xs. c = ObjectCol xs \<longrightarrow>
               (c' = ObjectCol xs \<or> (\<exists>ts. c' = DatetimeCol ts) \<or> is_numeric c')
             \<and> (\<forall>ts. c' = DatetimeCol ts \<longrightarrow>
                   (\<forall>s0 rest. present xs = s0 # rest \<longrightarrow>
                      (\<forall>s \<in> set (present xs). parse_with (guess_format s0) s \<noteq> None)))
             \<and> (is_numeric c' \<longrightarrow>
                   (\<forall>s \<in> set (present (str_replace (CHR '','') (str_replace (CHR ''$'') xs))).
                      parse_number s \<noteq> None))
             \<and> ((\<exists>s0 rest. present xs = s0 # rest
                    \<and> (\<exists>s \<in> set (present xs). parse_with (guess_format s0) s = None))
                \<and> (\<exists>s \<in> set (present (str_replace (CHR '','') (str_replace (CHR ''$'') xs))).
                      parse_number s = None)
                \<longrightarrow> c' = ObjectCol xs))"
      using c' other obj by (intro exI [of _ ?c']) blast
  qed
  show ?ex1
    by (simp add: standardize_datatypes_def to_datetime_def to_numeric_def str_replace_def
                  present_def parses_def number_of_def)
  show ?ex2
    by (simp add: standardize_datatypes_def to_datetime_def to_numeric_def str_replace_def
                  present_def parses_def number_of_def)
qed

text \<open>
  C4 with the two example parsers, on the two columns of the claim and on the shop table:
  the day column becomes temporal, the price column numeric, the category column stays
  text and the integer column is not touched.
\<close>

theorem normalizer_all_or_nothing_witness:
  "one_date () ''$1,200'' = None
   \<and> plain_number ''1200'' = Some (IntVal 1200) \<and> plain_number ''350'' = Some (IntVal 350)
   \<and> plain_number ''40'' = Some (IntVal 40) \<and> plain_number ''abc'' = None
   \<and> standardize_datatypes (\<lambda>s. ()) one_date plain_number
        \<lparr>nrows = 3, cols = [(''price'', ObjectCol [Some ''$1,200'', Some ''$350'', Some ''$40''])]\<rparr>
      = \<lparr>nrows = 3, cols = [(''price'', Int64Col [1200, 350, 40])]\<rparr>
   \<and> standardize_datatypes (\<lambda>s. ()) one_date plain_number
        \<lparr>nrows = 3, cols = [(''price'', ObjectCol [Some ''$1,200'', Some ''abc'', Some ''$40''])]\<rparr>
      = \<lparr>nrows = 3, cols = [(''price'', ObjectCol [Some ''$1,200'', Some ''abc'', Some ''$40''])]\<rparr>
   \<and> 3 < length (cols shop)
   \<and> cols (standardize_datatypes (\<lambda>s. ()) one_date plain_number shop) ! 0
      = (''day'', DatetimeCol [Some 1704412800000000000, None, Some 1704412800000000000,
                              Some 1704412800000000000, None])
   \<and> cols (standardize_datatypes (\<lambda>s. ()) one_date plain_number shop) ! 1
      = (''price'', Float64Col [Some 1200, Some 350, None, Some 40, Some 350])
   \<and> cols (standardize_datatypes (\<lambda>s. ()) one_date plain_number shop) ! 2 = cols shop ! 2
   \<and> cols (standardize_datatypes (\<lambda>s. ()) one_date plain_number shop) ! 3 = cols shop ! 3"
proof -
  have parsers: "one_date () ''$1,200'' = None"
    "plain_number ''1200'' = Some (IntVal 1200)" "plain_number ''350'' = Some (IntVal 350)"
    "plain_number ''40'' = Some (IntVal 40)" "plain_number ''abc'' = None"
    by (simp_all add: one_date_def plain_number_examples)
  note inst = normalizer_all_or_nothing [of shop "\<lambda>s. ()" one_date plain_number]
  from inst parsers have ex:
    "standardize_datatypes (\<lambda>s. ()) one_date plain_number
        \<lparr>nrows = 3, cols = [(''price'', ObjectCol [Some ''$1,200'', Some ''$350'', Some ''$40''])]\<rparr>
      = \<lparr>nrows = 3, cols = [(''price'', Int64Col [1200, 350, 40])]\<rparr>"
    "standardize_datatypes (\<lambda>s. ()) one_date plain_number
        \<lparr>nrows = 3, cols = [(''price'', ObjectCol [Some ''$1,200'', Some ''abc'', Some ''$40''])]\<rparr>
      = \<lparr>nrows = 3, cols = [(''price'', ObjectCol [Some ''$1,200'', Some ''abc'', Some ''$40''])]\<rparr>"
    by blast+
  show ?thesis
    using parsers ex by (simp add: shop_standardize) (simp add: shop_def shop_standardized_def)
qed

subsection \<open>The imputer\<close>

lemma assign_map:
  "assign sel (map g (filter sel (map snd cs))) cs
   = map (\<lambda>(name, c). (name, if sel c then g c else c)) cs"
  by (induction cs) auto

lemma concat_singletons_length:
  "length (concat (map (\<lambda>x. case f x of None \<Rightarrow> [] | Some y \<Rightarrow> [h y x]) X)) \<le> length X"
  by (induction X) (auto split: option.splits)

lemma concat_singletons_full:
  assumes "length (concat (map (\<lambda>x. case f x of None \<Rightarrow> [] | Some y \<Rightarrow> [h y x]) X)) = length X"
  shows "(\<forall>x \<in> set X. f x \<noteq> None)
       \<and> concat (map (\<lambda>x. case f x of None \<Rightarrow> [] | Some y \<Rightarrow> [h y x]) X)
         = map (\<lambda>x. h (the (f x)) x) X"
  using assms
proof (induction X)
  case Nil
  show ?case by simp
next
  case (Cons x X)
  show ?case
  proof (cases "f x")
    case None
    with Cons.prems concat_singletons_length [where f = f and h = h and X = X]
    show ?thesis by simp
  next
    case (Some y)
    with Cons show ?thesis by simp
  qed
qed

lemma fit_transform_full:
  assumes "fit_transform stat n X = Inr Y" and "length Y = length X"
  shows "0 < n" and "\<forall>xs \<in> set X. stat (present xs) \<noteq> None"
    and "Y = map (\<lambda>xs. fill (the (stat (present xs))) xs) X"
proof -
  show n: "0 < n" using assms(1) by (auto simp: fit_transform_def split: if_splits)
  have Y: "Y = concat (map (\<lambda>xs. case stat (present xs) of None \<Rightarrow> [] | Some m \<Rightarrow> [fill m xs]) X)"
    using assms(1) n by (simp add: fit_transform_def)
  from concat_singletons_full [where f = "\<lambda>xs. stat (present xs)" and h = fill and X = X]
       assms(2) Y
  show "\<forall>xs \<in> set X. stat (present xs) \<noteq> None"
    and "Y = map (\<lambda>xs. fill (the (stat (present xs))) xs) X"
    by simp_all
qed

lemma setitem_Inr:
  assumes "setitem sel news df = Inr df'"
  shows "length news = length (filter sel (map snd (cols df)))"
    and "df' = df\<lparr>cols := assign sel news (cols df)\<rparr>"
  using assms by (auto simp: setitem_def split: if_splits)

lemma impute_numeric_Inr:
  assumes "impute_numeric df = Inr df'"
  shows "nrows df' = nrows df"
    and "\<forall>(name, c) \<in> set (cols df). is_numeric c \<longrightarrow> 0 < nrows df \<and> median (present (floats c)) \<noteq> None"
    and "cols df' = map (\<lambda>(name, c). (name, if is_numeric c
             then Float64Col (map Some (fill (the (median (present (floats c)))) (floats c)))
             else c)) (cols df)"
proof -
  let ?num = "filter is_numeric (map snd (cols df))"
  let ?g = "\<lambda>c. Float64Col (map Some (fill (the (median (present (floats c)))) (floats c)))"
  show "nrows df' = nrows df"
       "\<forall>(name, c) \<in> set (cols df). is_numeric c \<longrightarrow> 0 < nrows df \<and> median (present (floats c)) \<noteq> None"
       "cols df' = map (\<lambda>(name, c). (name, if is_numeric c then ?g c else c)) (cols df)"
  proof (atomize (full), cases "?num = []")
    case True
    then have "df' = df" using assms by (simp add: impute_numeric_def)
    moreover have "\<forall>(name, c) \<in> set (cols df). \<not> is_numeric c"
      using True by (auto simp: filter_empty_conv)
    ultimately show "nrows df' = nrows df \<and>
       (\<forall>(name, c) \<in> set (cols df). is_numeric c \<longrightarrow> 0 < nrows df \<and> median (present (floats c)) \<noteq> None) \<and>
       cols df' = map (\<lambda>(name, c). (name, if is_numeric c then ?g c else c)) (cols df)"
      by (auto intro!: map_idI [symmetric])
  next
    case False
    then obtain X where X: "fit_transform median (nrows df) (map floats ?num) = Inr X"
      and set: "setitem is_numeric (map (\<lambda>xs. Float64Col (map Some xs)) X) df = Inr df'"
      using assms by (auto simp: impute_numeric_def Let_def split: sum.splits)
    from setitem_Inr [OF set] have len: "length X = length (map floats ?num)"
      and df': "df' = df\<lparr>cols := assign is_numeric (map (\<lambda>xs. Float64Col (map Some xs)) X) (cols df)\<rparr>"
      by simp_all
    from fit_transform_full [OF X len]
    have n: "0 < nrows df" and all: "\<forall>xs \<in> set (map floats ?num). median (present xs) \<noteq> None"
      and Xeq: "X = map (\<lambda>xs. fill (the (median (present xs))) xs) (map floats ?num)"
      by simp_all
    have "map (\<lambda>xs. Float64Col (map Some xs)) X = map ?g ?num"
      by (simp add: Xeq comp_def)
    with df' have "cols df' = map (\<lambda>(name, c). (name, if is_numeric c then ?g c else c)) (cols df)"
      by (simp add: assign_map)
    moreover have "nrows df' = nrows df" using df' by simp
    moreover have "\<forall>(name, c) \<in> set (cols df). is_numeric c \<longrightarrow> 0 < nrows df \<and> median (present (floats c)) \<noteq> None"
      using n all by force
    ultimately show "nrows df' = nrows df \<and>
       (\<forall>(name, c) \<in> set (cols df). is_numeric c \<longrightarrow> 0 < nrows df \<and> median (present (floats c)) \<noteq> None) \<and>
       cols df' = map (\<lambda>(name, c). (name, if is_numeric c then ?g c else c)) (cols df)"
      by blast
  qed
qed

lemma impute_categorical_Inr:
  assumes "impute_categorical df = Inr df'"
  shows "nrows df' = nrows df"
    and "\<forall>(name, c) \<in> set (cols df). is_object c \<longrightarrow> 0 < nrows df \<and> most_frequent (present (strings c)) \<noteq> None"
    and "cols df' = map (\<lambda>(name, c). (name, if is_object c
             then ObjectCol (map Some (fill (the (most_frequent (present (strings c)))) (strings c)))
             else c)) (cols df)"
proof -
  let ?cat = "filter is_object (map snd (cols df))"
  let ?g = "\<lambda>c. ObjectCol (map Some (fill (the (most_frequent (present (strings c)))) (strings c)))"
  show "nrows df' = nrows df"
       "\<forall>(name, c) \<in> set (cols df). is_object c \<longrightarrow> 0 < nrows df \<and> most_frequent (present (strings c)) \<noteq> None"
       "cols df' = map (\<lambda>(name, c). (name, if is_object c then ?g c else c)) (cols df)"
  proof (atomize (full), cases "?cat = []")
    case True
    then have "df' = df" using assms by (simp add: impute_categorical_def)
    moreover have "\<forall>(name, c) \<in> set (cols df). \<not> is_object c"
      using True by (auto simp: filter_empty_conv)
    ultimately show "nrows df' = nrows df \<and>
       (\<forall>(name, c) \<in> set (cols df). is_object c \<longrightarrow> 0 < nrows df \<and> most_frequent (present (strings c)) \<noteq> None) \<and>
       cols df' = map (\<lambda>(name, c). (name, if is_object c then ?g c else c)) (cols df)"
      by (auto intro!: map_idI [symmetric])
  next
    case False
    then obtain X where X: "fit_transform most_frequent (nrows df) (map strings ?cat) = Inr X"
      and set: "setitem is_object (map (\<lambda>xs. ObjectCol (map Some xs)) X) df = Inr df'"
      using assms by (auto simp: impute_categorical_def Let_def split: sum.splits)
    from setitem_Inr [OF set] have len: "length X = length (map strings ?cat)"
      and df': "df' = df\<lparr>cols := assign is_object (map (\<lambda>xs. ObjectCol (map Some xs)) X) (cols df)\<rparr>"
      by simp_all
    from fit_transform_full [OF X len]
    have n: "0 < nrows df" and all: "\<forall>xs \<in> set (map strings ?cat). most_frequent (present xs) \<noteq> None"
      and Xeq: "X = map (\<lambda>xs. fill (the (most_frequent (present xs))) xs) (map strings ?cat)"
      by simp_all
    have "map (\<lambda>xs. ObjectCol (map Some xs)) X = map ?g ?cat"
      by (simp add: Xeq comp_def)
    with df' have "cols df' = map (\<lambda>(name, c). (name, if is_object c then ?g c else c)) (cols df)"
      by (simp add: assign_map)
    moreover have "nrows df' = nrows df" using df' by simp
    moreover have "\<forall>(name, c) \<in> set (cols df). is_object c \<longrightarrow> 0 < nrows df \<and> most_frequent (present (strings c)) \<noteq> None"
      using n all by force
    ultimately show "nrows df' = nrows df \<and>
       (\<forall>(name, c) \<in> set (cols df). is_object c \<longrightarrow> 0 < nrows df \<and> most_frequent (present (strings c)) \<noteq> None) \<and>
       cols df' = map (\<lambda>(name, c). (name, if is_object c then ?g c else c)) (cols df)"
      by blast
  qed
qed

lemma numeric_not_object: "is_numeric c \<Longrightarrow> \<not> is_object c"
  by (cases c) simp_all

text \<open>The imputer, when it returns: every column is replaced by its imputed version,
  and every numeric or text column had a present value.\<close>

lemma handle_missing_values_Inr:
  assumes "handle_missing_values df = Inr df'"
  shows "nrows df' = nrows df"
    and "cols df' = map (\<lambda>(name, c). (name, imputed c)) (cols df)"
    and "\<And>name c. (name, c) \<in> set (cols df) \<Longrightarrow> is_numeric c \<Longrightarrow>
           0 < nrows df \<and> (\<exists>m. median (present (floats c)) = Some m)"
    and "\<And>name c. (name, c) \<in> set (cols df) \<Longrightarrow> is_object c \<Longrightarrow>
           0 < nrows df \<and> (\<exists>m. most_frequent (present (strings c)) = Some m)"
proof -
  obtain df1 where 1: "impute_numeric df = Inr df1" and 2: "impute_categorical df1 = Inr df'"
    using assms by (auto simp: handle_missing_values_def split: sum.splits)
  note n = impute_numeric_Inr [OF 1] and c = impute_categorical_Inr [OF 2]
  show "nrows df' = nrows df" using n(1) c(1) by simp
  show num: "0 < nrows df \<and> (\<exists>m. median (present (floats c)) = Some m)"
    if "(name, c) \<in> set (cols df)" "is_numeric c" for name c
    using n(2) that by fastforce
  show obj: "0 < nrows df \<and> (\<exists>m. most_frequent (present (strings c)) = Some m)"
    if "(name, c) \<in> set (cols df)" "is_object c" for name c
  proof -
    have "(name, c) \<in> set (cols df1)"
      using that numeric_not_object [of c] by (force simp: n(3))
    with c(2) that(2) n(1) show ?thesis by fastforce
  qed
  let ?f = "\<lambda>(name, c). (name, if is_numeric c
           then Float64Col (map Some (fill (the (median (present (floats c)))) (floats c)))
           else c)"
  let ?h = "\<lambda>(name, c). (name, if is_object c
           then ObjectCol (map Some (fill (the (most_frequent (present (strings c)))) (strings c)))
           else c)"
  have "?h (?f nc) = (case nc of (name, c) \<Rightarrow> (name, imputed c))" if "nc \<in> set (cols df)" for nc
  proof -
    obtain name c where nc: "nc = (name, c)" by (cases nc)
    show ?thesis
      using num [of name c] obj [of name c] that numeric_not_object [of c]
      by (auto simp: nc imputed_def)
  qed
  then show "cols df' = map (\<lambda>(name, c). (name, imputed c)) (cols df)"
    by (simp add: c(3) n(3) comp_def)
qed

lemma fill_length: "length (fill m xs) = length xs"
  by (simp add: fill_def)

lemma floats_length: "is_numeric c \<Longrightarrow> length (floats c) = col_len c"
  by (cases c) (simp_all add: col_len_def)

lemma strings_length: "is_object c \<Longrightarrow> length (strings c) = col_len c"
  by (cases c) (simp_all add: col_len_def)

lemma imputed_len: "col_len (imputed c) = col_len c"
  by (cases c) (auto simp: imputed_def col_len_def fill_length comp_def split: option.splits)

lemma handle_missing_values_same:
  "handle_missing_values df = Inr df' \<Longrightarrow> same_rows_and_columns df df'"
  by (simp add: same_rows_and_columns_def handle_missing_values_Inr columns_def
                imputed_len case_prod_unfold comp_def)



lemma fold_max_Max: "fold max ys (y::nat) = Max (set (y # ys))"
  by (simp only: Max.set_eq_fold)

lemma fold_min_Min: "fold min ys (y::'a::linorder) = Min (set (y # ys))"
  by (simp only: Min.set_eq_fold)

lemma most_frequent_None: "most_frequent xs = None \<longleftrightarrow> xs = []"
proof
  assume none: "most_frequent xs = None"
  show "xs = []"
  proof (rule ccontr)
    assume ne: "xs \<noteq> []"
    let ?m = "fold max (map (count_list xs) xs) 0"
    have in_set: "?m \<in> set (0 # map (count_list xs) xs)"
      unfolding fold_max_Max by (rule Max_in) simp_all
    obtain x where x: "x \<in> set xs" using ne by (cases xs) auto
    have "count_list xs x \<le> ?m"
      unfolding fold_max_Max using x by (intro Max_ge) simp_all
    moreover have "0 < count_list xs x" using x count_list_0_iff [of xs x] by simp
    ultimately have "?m \<noteq> 0" by simp
    with in_set obtain v where "v \<in> set xs" "count_list xs v = ?m" by auto
    then have "filter (\<lambda>v. count_list xs v = ?m) xs \<noteq> []"
      by (auto simp: filter_empty_conv)
    with none show False
      by (auto simp: most_frequent_def Let_def split: list.splits)
  qed
qed (simp add: most_frequent_def)

text \<open>The most frequent value: present, of the highest count, and the smallest of that count.\<close>

lemma most_frequent_Some:
  assumes "most_frequent xs = Some m"
  shows "m \<in> set xs"
    and "\<And>v. v \<in> set xs \<Longrightarrow> count_list xs v \<le> count_list xs m"
    and "\<And>v. v \<in> set xs \<Longrightarrow> count_list xs v = count_list xs m \<Longrightarrow> m \<le> v"
proof -
  let ?m = "fold max (map (count_list xs) xs) 0"
  let ?cands = "filter (\<lambda>v. count_list xs v = ?m) xs"
  obtain c cs where cands: "?cands = c # cs" and m: "m = fold min cs c"
    using assms by (auto simp: most_frequent_def Let_def split: list.splits)
  have m_Min: "m = Min (set ?cands)" by (simp only: m fold_min_Min cands)
  have "m \<in> set ?cands" unfolding m_Min by (rule Min_in) (simp_all add: cands del: set_filter)
  then have in_xs: "m \<in> set xs" and cnt: "count_list xs m = ?m" by simp_all
  show "m \<in> set xs" by (rule in_xs)
  show "count_list xs v \<le> count_list xs m" if "v \<in> set xs" for v
    unfolding cnt fold_max_Max using that by (intro Max_ge) simp_all
  show "m \<le> v" if "v \<in> set xs" "count_list xs v = count_list xs m" for v
  proof -
    have "v \<in> set ?cands" using that cnt by simp
    then show ?thesis unfolding m_Min by (intro Min_le) simp_all
  qed
qed

text \<open>The imputer on the standardized shop table.\<close>

lemma shop_impute: "handle_missing_values shop_standardized = Inr shop_imputed"
  by (simp add: shop_standardized_def shop_imputed_def handle_missing_values_def
                impute_numeric_def impute_categorical_def fit_transform_def setitem_def
                median_def most_frequent_def present_def fill_def)

text \<open>The imputer on the column \<open>[10, missing, 20, 30]\<close>: the missing cell becomes the median 20.\<close>

lemma imputer_median_example:
  "handle_missing_values \<lparr>nrows = 4, cols = [(''n'', Float64Col [Some 10, None, Some 20, Some 30])]\<rparr>
     = Inr \<lparr>nrows = 4, cols = [(''n'', Float64Col [Some 10, Some 20, Some 20, Some 30])]\<rparr>"
  by (simp add: handle_missing_values_def impute_numeric_def impute_categorical_def
                fit_transform_def setitem_def median_def present_def fill_def)

text \<open>A numeric column without a present value: the library drops it from its output, and
  the assignment of the output to the table raises.\<close>

lemma imputer_all_missing_raises:
  "handle_missing_values \<lparr>nrows = 2, cols = [(''n'', Float64Col [None, None])]\<rparr> = Inl ValueError"
  by (simp add: handle_missing_values_def impute_numeric_def fit_transform_def setitem_def
                median_def present_def)

text \<open>
  Claim C2 as it is worded fails on ties. In the column \<open>[b, a, missing]\<close> both values occur
  once; the imputer fills the missing cell with \<open>a\<close>, the smaller one, while the value met
  first in column order is \<open>b\<close>. And the imputer replaces nothing when it raises: a
  numeric column without a present value makes it raise, whatever the other columns.
\<close>

theorem imputer_tie_break_counterexample:
  "handle_missing_values \<lparr>nrows = 3, cols = [(''category'', ObjectCol [Some ''b'', Some ''a'', None])]\<rparr>
     = Inr \<lparr>nrows = 3, cols = [(''category'', ObjectCol [Some ''b'', Some ''a'', Some ''a''])]\<rparr>
   \<and> most_frequent_first_encountered (present [Some ''b'', Some ''a'', None]) = Some ''b''
   \<and> handle_missing_values \<lparr>nrows = 2,
         cols = [(''n'', Float64Col [Some 1, None]), (''m'', Float64Col [None, None])]\<rparr>
     = Inl ValueError"
  by (simp add: handle_missing_values_def impute_numeric_def impute_categorical_def
                fit_transform_def setitem_def most_frequent_def median_def
                most_frequent_first_encountered_def present_def fill_def)

text \<open>
  Claim C2, amended. When the imputer returns, every missing cell of a numeric column has
  been replaced by the median of the column's present values, and every missing cell of a
  text column by a present value \<open>m\<close> that no present value occurs more often than, and
  that is the smallest among the values occurring as often as it does; present cells keep
  their values.
\<close>

theorem imputer_median_and_mode:
  assumes run: "handle_missing_values df = Inr df'"
    and col: "i < length (cols df)" "cols df ! i = (name, c)"
  shows "(is_numeric c \<longrightarrow>
           (\<exists>m. median (present (floats c)) = Some m
               \<and> cols df' ! i = (name, Float64Col
                    (map (\<lambda>x. case x of None \<Rightarrow> Some m | Some v \<Rightarrow> Some v) (floats c)))))
       \<and> (is_object c \<longrightarrow>
           (\<exists>m. cols df' ! i = (name, ObjectCol
                    (map (\<lambda>x. case x of None \<Rightarrow> Some m | Some v \<Rightarrow> Some v) (strings c)))
               \<and> m \<in> set (present (strings c))
               \<and> (\<forall>v \<in> set (present (strings c)).
                     count_list (present (strings c)) v \<le> count_list (present (strings c)) m
                   \<and> (count_list (present (strings c)) v = count_list (present (strings c)) m
                        \<longrightarrow> m \<le> v))))"
proof -
  have mem: "(name, c) \<in> set (cols df)" using col by (metis nth_mem)
  have c': "cols df' ! i = (name, imputed c)"
    using col by (simp add: handle_missing_values_Inr(2) [OF run])
  have fill_eq: "map Some (fill m xs) = map (\<lambda>x. case x of None \<Rightarrow> Some m | Some v \<Rightarrow> Some v) xs"
    for m :: 'a and xs
    by (simp add: fill_def option.case_distrib [of Some] cong: option.case_cong)
  have num: ?thesis if "is_numeric c"
    using handle_missing_values_Inr(3) [OF run mem that] that numeric_not_object [of c] c'
    by (auto simp: imputed_def fill_eq)
  have obj: ?thesis if "is_object c"
  proof -
    from handle_missing_values_Inr(4) [OF run mem that]
    obtain m where m: "most_frequent (present (strings c)) = Some m" by blast
    note mf = most_frequent_Some [OF m]
    have "cols df' ! i = (name, ObjectCol
            (map (\<lambda>x. case x of None \<Rightarrow> Some m | Some v \<Rightarrow> Some v) (strings c)))"
      using c' m that numeric_not_object [of c] by (auto simp: imputed_def fill_eq)
    with mf that numeric_not_object [of c] show ?thesis by blast
  qed
  show ?thesis
  proof (cases "is_numeric c \<or> is_object c")
    case True
    with num obj show ?thesis by blast
  next
    case False
    then show ?thesis by simp
  qed
qed

text \<open>
  C2 (amended) on the shop table: the price column is filled with its median 350, the
  category column with its most frequent value.
\<close>

theorem imputer_median_and_mode_witness:
  "handle_missing_values shop_standardized = Inr shop_imputed
   \<and> median (present [Some 1200, Some 350, None, Some 40, Some 350]) = Some 350
   \<and> cols shop_imputed ! 1 = (''price'', Float64Col [Some 1200, Some 350, Some 350, Some 40, Some 350])
   \<and> most_frequent (present [Some ''a'', Some ''b'', Some ''b'', None, Some ''b'']) = Some ''b''
   \<and> cols shop_imputed ! 2
      = (''category'', ObjectCol [Some ''a'', Some ''b'', Some ''b'', Some ''b'', Some ''b''])"
proof -
  have col1: "1 < length (cols shop_standardized)"
    "cols shop_standardized ! 1 = (''price'', Float64Col [Some 1200, Some 350, None, Some 40, Some 350])"
    by (simp_all add: shop_standardized_def)
  have col2: "2 < length (cols shop_standardized)"
    "cols shop_standardized ! 2
     = (''category'', ObjectCol [Some ''a'', Some ''b'', Some ''b'', None, Some ''b''])"
    by (simp_all add: shop_standardized_def)
  have med: "median (present [Some 1200, Some 350, None, Some 40, Some 350]) = Some 350"
    by (simp add: median_def present_def)
  have mode: "most_frequent (present [Some ''a'', Some ''b'', Some ''b'', None, Some ''b'']) = Some ''b''"
    by (simp add: most_frequent_def present_def)
  from imputer_median_and_mode [OF shop_impute col1] med
  have 1: "cols shop_imputed ! 1 = (''price'', Float64Col [Some 1200, Some 350, Some 350, Some 40, Some 350])"
    by simp
  from imputer_median_and_mode [OF shop_impute col2]
  obtain m where "cols shop_imputed ! 2 = (''category'', ObjectCol
      (map (\<lambda>x. case x of None \<Rightarrow> Some m | Some v \<Rightarrow> Some v)
           [Some ''a'', Some ''b'', Some ''b'', None, Some ''b'']))"
    by auto
  then have 2: "cols shop_imputed ! 2
      = (''category'', ObjectCol [Some ''a'', Some ''b'', Some ''b'', Some ''b'', Some ''b''])"
    by (simp add: shop_imputed_def)
  from shop_impute med mode 1 2 show ?thesis by simp
qed

text \<open>
  Claim C3 as it is worded fails on a temporal column: the column has a present value, the
  imputer returns, and the missing cell is still missing.
\<close>

theorem imputer_temporal_counterexample:
  "handle_missing_values \<lparr>nrows = 2, cols = [(''day'', DatetimeCol [Some 0, None])]\<rparr>
     = Inr \<lparr>nrows = 2, cols = [(''day'', DatetimeCol [Some 0, None])]\<rparr>
   \<and> cells (DatetimeCol [Some 0, None]) = [TimeCell 0, NA]"
  by (simp add: handle_missing_values_def impute_numeric_def impute_categorical_def)

text \<open>
  Claim C3, amended. When the imputer returns, no cell remains missing in any numeric or
  text column that had at least one present value; a column of any other type (a temporal
  column) is left as it was.
\<close>

theorem imputer_leaves_no_missing:
  assumes run: "handle_missing_values df = Inr df'"
    and col: "i < length (cols df)" "cols df ! i = (name, c)"
  shows "(is_numeric c \<or> is_object c \<longrightarrow> (\<exists>x \<in> set (cells c). x \<noteq> NA) \<longrightarrow>
            (\<exists>c'. cols df' ! i = (name, c') \<and> NA \<notin> set (cells c')))
       \<and> (\<not> (is_numeric c \<or> is_object c) \<longrightarrow> cols df' ! i = (name, c))"
proof -
  have mem: "(name, c) \<in> set (cols df)" using col by (metis nth_mem)
  have c': "cols df' ! i = (name, imputed c)"
    using col by (simp add: handle_missing_values_Inr(2) [OF run])
  have "NA \<notin> set (cells (imputed c))" if "is_numeric c"
    using handle_missing_values_Inr(3) [OF run mem that] that
    by (auto simp: imputed_def)
  moreover have "NA \<notin> set (cells (imputed c))" if "is_object c"
    using handle_missing_values_Inr(4) [OF run mem that] that numeric_not_object [of c]
    by (auto simp: imputed_def)
  moreover have "imputed c = c" if "\<not> (is_numeric c \<or> is_object c)"
    using that by (simp add: imputed_def)
  ultimately show ?thesis using c' by auto
qed

text \<open>
  C3 (amended) on the shop table: the price column loses its missing cell, the temporal
  column keeps its own.
\<close>

theorem imputer_leaves_no_missing_witness:
  "handle_missing_values shop_standardized = Inr shop_imputed
   \<and> cols shop_standardized ! 1 = (''price'', Float64Col [Some 1200, Some 350, None, Some 40, Some 350])
   \<and> cols shop_imputed ! 1 = (''price'', Float64Col [Some 1200, Some 350, Some 350, Some 40, Some 350])
   \<and> NA \<notin> set (cells (Float64Col [Some 1200, Some 350, Some 350, Some 40, Some 350]))
   \<and> cols shop_imputed ! 0 = cols shop_standardized ! 0
   \<and> NA \<in> set (cells (snd (cols shop_imputed ! 0)))"
proof -
  have col1: "1 < length (cols shop_standardized)"
    "cols shop_standardized ! 1 = (''price'', Float64Col [Some 1200, Some 350, None, Some 40, Some 350])"
    by (simp_all add: shop_standardized_def)
  have col0: "0 < length (cols shop_standardized)"
    "cols shop_standardized ! 0 = (''day'', DatetimeCol [Some 1704412800000000000, None,
        Some 1704412800000000000, Some 1704412800000000000, None])"
    by (simp_all add: shop_standardized_def)
  from imputer_leaves_no_missing [OF shop_impute col1]
  obtain c' where "cols shop_imputed ! 1 = (''price'', c')" "NA \<notin> set (cells c')"
    by auto
  moreover from imputer_leaves_no_missing [OF shop_impute col0]
  have "cols shop_imputed ! 0 = cols shop_standardized ! 0"
    by (simp add: col0)
  ultimately show ?thesis
    using shop_impute col1 by (simp add: shop_imputed_def shop_standardized_def)
qed



subsection \<open>The outlier capper\<close>

lemma isnull_length: "length (isnull c) = col_len c"
  by (simp add: isnull_def col_len_def)

lemma where_col_numeric:
  assumes "is_numeric c" and "length cond = col_len c"
  shows "is_numeric (where_col cond other c)"
    and "col_len (where_col cond other c) = col_len c"
    and "floats (where_col cond other c)
         = map (\<lambda>(b, x). if b then x else Some other) (zip cond (floats c))"
  using assms
  by (cases c; simp add: col_len_def zip_map2 case_prod_unfold comp_def;
      simp add: list_eq_iff_nth_eq list_all_length)+

lemma interp_bounds:
  fixes s :: "real list"
  assumes "sorted s" and "s \<noteq> []" and "0 \<le> pos" and "pos \<le> real (length s - 1)"
  defines "lo \<equiv> nat \<lfloor>pos\<rfloor>"
  defines "hi \<equiv> min (lo + 1) (length s - 1)"
  shows "lo \<le> hi" and "hi < length s"
    and "s ! lo \<le> s ! lo + (s ! hi - s ! lo) * (pos - real lo)"
    and "s ! lo + (s ! hi - s ! lo) * (pos - real lo) \<le> s ! hi"
proof -
  have n: "0 < length s" using assms(2) by simp
  have lo_le: "real lo \<le> pos" using assms(3) by (simp add: lo_def)
  have lo_gt: "pos < real lo + 1" using assms(3) unfolding lo_def by linarith
  have "real lo \<le> real (length s - 1)" using lo_le assms(4) by linarith
  then have lo_n: "lo \<le> length s - 1" by simp
  show lohi: "lo \<le> hi" using lo_n by (simp add: hi_def)
  show hin: "hi < length s" using n by (simp add: hi_def min_less_iff_disj)
  have d: "0 \<le> s ! hi - s ! lo"
    using sorted_nth_mono [OF assms(1) lohi hin] by simp
  have f0: "0 \<le> pos - real lo" and f1: "pos - real lo \<le> 1" using lo_le lo_gt by simp_all
  show "s ! lo \<le> s ! lo + (s ! hi - s ! lo) * (pos - real lo)"
    using d f0 by simp
  have "(s ! hi - s ! lo) * (pos - real lo) \<le> (s ! hi - s ! lo) * 1"
    using d f1 by (rule mult_left_mono [rotated]) 
  then show "s ! lo + (s ! hi - s ! lo) * (pos - real lo) \<le> s ! hi" by simp
qed

lemma interp_mono:
  fixes s :: "real list"
  assumes s: "sorted s" "s \<noteq> []" and p: "0 \<le> pos" "pos \<le> pos'" "pos' \<le> real (length s - 1)"
  shows "s ! nat \<lfloor>pos\<rfloor> + (s ! min (nat \<lfloor>pos\<rfloor> + 1) (length s - 1) - s ! nat \<lfloor>pos\<rfloor>) * (pos - real (nat \<lfloor>pos\<rfloor>))
       \<le> s ! nat \<lfloor>pos'\<rfloor> + (s ! min (nat \<lfloor>pos'\<rfloor> + 1) (length s - 1) - s ! nat \<lfloor>pos'\<rfloor>) * (pos' - real (nat \<lfloor>pos'\<rfloor>))"
    (is "?f \<le> ?f'")
proof -
  let ?lo = "nat \<lfloor>pos\<rfloor>" and ?lo' = "nat \<lfloor>pos'\<rfloor>"
  let ?hi = "min (?lo + 1) (length s - 1)" and ?hi' = "min (?lo' + 1) (length s - 1)"
  have p1: "pos \<le> real (length s - 1)" and p2: "0 \<le> pos'" using p by linarith+
  note b = interp_bounds [OF s p(1) p1] and b' = interp_bounds [OF s p2 p(3)]
  have lole: "?lo \<le> ?lo'" using p(2) by (simp add: floor_mono nat_mono)
  show ?thesis
  proof (cases "?lo = ?lo'")
    case True
    have d: "0 \<le> s ! ?hi - s ! ?lo"
      using sorted_nth_mono [OF s(1) b(1) b(2)] by simp
    have "(s ! ?hi - s ! ?lo) * (pos - real ?lo) \<le> (s ! ?hi - s ! ?lo) * (pos' - real ?lo)"
      using d p(2) by (intro mult_left_mono) simp_all
    then show ?thesis using True by simp
  next
    case False
    then have "?hi \<le> ?lo'" using lole by simp
    then have "s ! ?hi \<le> s ! ?lo'"
      using sorted_nth_mono [OF s(1), of ?hi ?lo'] b'(1) b'(2) by simp
    then show ?thesis using b(4) b'(3) by linarith
  qed
qed

text \<open>The interpolated quantile grows with its level, so the first quartile is at most the
  third.\<close>

lemma quantile_mono:
  assumes "0 \<le> q" and "q \<le> q'" and "q' \<le> 1"
    and "quantile q xs = Some a" and "quantile q' xs = Some b"
  shows "a \<le> b"
proof -
  have ne: "xs \<noteq> []" using assms(4) by (auto simp: quantile_def)
  let ?s = "sort xs"
  have s: "sorted ?s" "?s \<noteq> []"
    using ne by (simp, metis length_sort length_0_conv)
  have n: "0 \<le> real (length ?s - 1)" by simp
  have p: "0 \<le> q * real (length ?s - 1)" "q * real (length ?s - 1) \<le> q' * real (length ?s - 1)"
          "q' * real (length ?s - 1) \<le> real (length ?s - 1)"
    using assms(1-3) n by (simp_all add: mult_right_mono mult_left_le_one_le)
  from interp_mono [OF s p] assms(4,5) ne show ?thesis
    by (simp add: quantile_def Let_def)
qed

lemma quantile_None: "quantile q xs = None \<longleftrightarrow> xs = []"
  by (simp add: quantile_def Let_def)

text \<open>The bounds exist exactly when the column has a present value, and then they are
  in order.\<close>

lemma bounds_Some:
  assumes "present (floats c) \<noteq> []"
  shows "\<exists>Q1 Q3. quantile 0.25 (present (floats c)) = Some Q1
              \<and> quantile 0.75 (present (floats c)) = Some Q3
              \<and> Q1 \<le> Q3
              \<and> lower_bound c = Some (Q1 - 1.5 * (Q3 - Q1))
              \<and> upper_bound c = Some (Q3 + 1.5 * (Q3 - Q1))"
proof -
  obtain Q1 Q3 where q: "quantile 0.25 (present (floats c)) = Some Q1"
                        "quantile 0.75 (present (floats c)) = Some Q3"
    using assms quantile_None [of _ "present (floats c)"] by (metis option.exhaust)
  have "Q1 \<le> Q3" using quantile_mono [OF _ _ _ q] by simp
  then show ?thesis
    using q by (simp add: lower_bound_def upper_bound_def fsub_def fmul_def fadd_def)
qed

lemma bounds_None:
  assumes "present (floats c) = []"
  shows "lower_bound c = None" and "upper_bound c = None"
  using assms by (simp_all add: lower_bound_def upper_bound_def quantile_def fsub_def fadd_def)

lemma isnull_floats: "is_numeric c \<Longrightarrow> isnull c = map (\<lambda>x. x = None) (floats c)"
  by (cases c) (simp_all add: isnull_def comp_def split: option.splits)

lemma clip_None: "clip None None c = c"
  by (simp add: clip_def)

text \<open>Clipping with two bounds in order: a present value below the lower bound becomes the
  lower bound, one above the upper bound the upper bound, a missing cell stays missing.\<close>

lemma clip_Some:
  assumes c: "is_numeric c" and le: "lo \<le> hi"
  shows "is_numeric (clip (Some lo) (Some hi) c)"
    and "col_len (clip (Some lo) (Some hi) c) = col_len c"
    and "floats (clip (Some lo) (Some hi) c)
         = map (map_option (\<lambda>v. if v < lo then lo else if hi < v then hi else v)) (floats c)"
proof -
  let ?cond1 = "map (\<lambda>(m, x). m \<or> fle (Some lo) x) (zip (isnull c) (floats c))"
  let ?cond2 = "map (\<lambda>(m, x). m \<or> fle x (Some hi)) (zip (isnull c) (floats c))"
  let ?r1 = "where_col ?cond1 lo c"
  have eq: "clip (Some lo) (Some hi) c = where_col ?cond2 hi ?r1"
    using le by (simp add: clip_def Let_def min_def max_def)
  have len: "length ?cond1 = col_len c" "length ?cond2 = col_len c"
    using c by (simp_all add: isnull_length floats_length)
  note r1 = where_col_numeric [OF c len(1), of lo]
  have len2: "length ?cond2 = col_len ?r1" using len(2) r1(2) by simp
  note r2 = where_col_numeric [OF r1(1) len2, of hi]
  show "is_numeric (clip (Some lo) (Some hi) c)" using r2(1) eq by simp
  show "col_len (clip (Some lo) (Some hi) c) = col_len c" using r2(2) r1(2) eq by simp
  show "floats (clip (Some lo) (Some hi) c)
         = map (map_option (\<lambda>v. if v < lo then lo else if hi < v then hi else v)) (floats c)"
    unfolding eq r2(3) r1(3) using le
    by (auto simp: list_eq_iff_nth_eq isnull_floats [OF c] fle_def split: option.splits)
qed

lemma remove_outliers_loop_cols:
  "fst (remove_outliers_loop cs out) = map (\<lambda>(name, c). (name, capped c)) cs"
  by (induction cs arbitrary: out) (auto simp: capped_def Let_def case_prod_unfold)



lemma bounds_ordered:
  assumes "present (floats c) \<noteq> []"
  obtains lo hi where "lower_bound c = Some lo" "upper_bound c = Some hi" "lo \<le> hi"
proof -
  from bounds_Some [OF assms] obtain Q1 Q3 where
    q: "Q1 \<le> Q3" "lower_bound c = Some (Q1 - 1.5 * (Q3 - Q1))"
       "upper_bound c = Some (Q3 + 1.5 * (Q3 - Q1))"
    by blast
  have "0 \<le> 1.5 * (Q3 - Q1)" using q(1) by simp
  then have "Q1 - 1.5 * (Q3 - Q1) \<le> Q3 + 1.5 * (Q3 - Q1)" using q(1) by linarith
  with q(2,3) that show thesis by blast
qed

lemma capped_len: "col_len (capped c) = col_len c"
proof (cases "is_numeric c \<and> present (floats c) \<noteq> []")
  case True
  then obtain lo hi where "lower_bound c = Some lo" "upper_bound c = Some hi" "lo \<le> hi"
    using bounds_ordered [of c] by blast
  with True clip_Some(2) [of c lo hi] show ?thesis by (simp add: capped_def)
next
  case False
  then show ?thesis using bounds_None [of c] by (auto simp: capped_def clip_None)
qed

lemma remove_outliers_same: "same_rows_and_columns df (fst (remove_outliers df))"
  by (simp add: same_rows_and_columns_def remove_outliers_def columns_def case_prod_unfold
                remove_outliers_loop_cols capped_len comp_def)







text \<open>
  Claim C6. On the column \<open>[1, 2, 3, 4, 100]\<close>: \<open>Q1 = 2\<close>, \<open>Q3 = 4\<close>, \<open>IQR = 2\<close>, the bounds
  are \<open>-1\<close> and \<open>7\<close>, the column becomes \<open>[1, 2, 3, 4, 7]\<close> and the outliers map records 1
  for it; both for an integer column and for the float column the imputer hands over.
\<close>

theorem capper_example:
  "quantile 0.25 [1, 2, 3, 4, 100] = Some 2
   \<and> quantile 0.75 [1, 2, 3, 4, 100] = Some 4
   \<and> fsub (quantile 0.75 [1, 2, 3, 4, 100]) (quantile 0.25 [1, 2, 3, 4, 100]) = Some 2
   \<and> lower_bound (Int64Col [1, 2, 3, 4, 100]) = Some (- 1)
   \<and> upper_bound (Int64Col [1, 2, 3, 4, 100]) = Some 7
   \<and> remove_outliers \<lparr>nrows = 5, cols = [(''x'', Int64Col [1, 2, 3, 4, 100])]\<rparr>
       = (\<lparr>nrows = 5, cols = [(''x'', Int64Col [1, 2, 3, 4, 7])]\<rparr>, [''x'' \<mapsto> 1])
   \<and> remove_outliers \<lparr>nrows = 5,
          cols = [(''x'', Float64Col [Some 1, Some 2, Some 3, Some 4, Some 100])]\<rparr>
       = (\<lparr>nrows = 5, cols = [(''x'', Float64Col [Some 1, Some 2, Some 3, Some 4, Some 7])]\<rparr>,
          [''x'' \<mapsto> 1])"
proof -
  have q1: "quantile 0.25 [1, 2, 3, 4, 100] = Some 2"
    and q3: "quantile 0.75 [1, 2, 3, 4, 100] = Some 4"
    by (simp_all add: quantile_def)
  have lbi: "lower_bound (Int64Col [1, 2, 3, 4, 100]) = Some (- 1)"
    and ubi: "upper_bound (Int64Col [1, 2, 3, 4, 100]) = Some 7"
    using q1 q3 by (simp_all add: lower_bound_def upper_bound_def present_def fsub_def fmul_def fadd_def)
  have lbf: "lower_bound (Float64Col [Some 1, Some 2, Some 3, Some 4, Some 100]) = Some (- 1)"
    and ubf: "upper_bound (Float64Col [Some 1, Some 2, Some 3, Some 4, Some 100]) = Some 7"
    using q1 q3 by (simp_all add: lower_bound_def upper_bound_def present_def fsub_def fmul_def fadd_def)
  have ri: "remove_outliers \<lparr>nrows = 5, cols = [(''x'', Int64Col [1, 2, 3, 4, 100])]\<rparr>
       = (\<lparr>nrows = 5, cols = [(''x'', Int64Col [1, 2, 3, 4, 7])]\<rparr>, [''x'' \<mapsto> 1])"
    by (simp add: remove_outliers_def lbi ubi count_outliers_def clip_def isnull_def flt_def fle_def)
  have rf: "remove_outliers \<lparr>nrows = 5,
          cols = [(''x'', Float64Col [Some 1, Some 2, Some 3, Some 4, Some 100])]\<rparr>
       = (\<lparr>nrows = 5, cols = [(''x'', Float64Col [Some 1, Some 2, Some 3, Some 4, Some 7])]\<rparr>,
          [''x'' \<mapsto> 1])"
    by (simp add: remove_outliers_def lbf ubf count_outliers_def clip_def isnull_def flt_def fle_def)
  show ?thesis using q1 q3 lbi ubi ri rf by (simp add: fsub_def)
qed

subsection \<open>The stages together\<close>

text \<open>
  Claim C7. Each of the three stages keeps the number of rows, the column names in their
  order, and the length of every column (the imputer: whenever it returns).
\<close>

theorem stages_keep_rows_and_columns:
  "same_rows_and_columns df (standardize_datatypes guess_format parse_with parse_number df)
   \<and> (\<forall>df'. handle_missing_values df = Inr df' \<longrightarrow> same_rows_and_columns df df')
   \<and> same_rows_and_columns df (fst (remove_outliers df))"
  using standardize_same handle_missing_values_same remove_outliers_same by blast

text \<open>
  C7 on the standardized shop table, on which the imputer returns.
\<close>

theorem stages_keep_rows_and_columns_witness:
  "handle_missing_values shop_standardized = Inr shop_imputed
   \<and> same_rows_and_columns shop_standardized shop_imputed
   \<and> same_rows_and_columns shop_standardized
        (standardize_datatypes (\<lambda>s. ()) one_date plain_number shop_standardized)
   \<and> same_rows_and_columns shop_standardized (fst (remove_outliers shop_standardized))"
  using stages_keep_rows_and_columns [of shop_standardized "\<lambda>s. ()" one_date plain_number]
        shop_impute
  by blast

text \<open>On a table with at least one row, the pipeline returns exactly when the imputer does.\<close>

lemma pipeline_returns_iff:
  assumes "0 < nrows df"
  shows "(\<exists>r. automated_cleaning_pipeline mem guess_format parse_with parse_number df = Inr r)
         \<longleftrightarrow> (\<exists>d. handle_missing_values
                    (standardize_datatypes guess_format parse_with parse_number df) = Inr d)"
  using assms
  by (auto simp: automated_cleaning_pipeline_def check_data_quality_def validate_cleaning_def
                 shape_def Let_def case_prod_unfold split: sum.splits)

text \<open>
  Claim C1. For every table with at least one row on which the pipeline returns, the table
  returned has as many rows as the input had before any stage ran, and the validation
  block of the returned report has \<open>data_loss_percentage\<close> exactly 0.
\<close>

theorem pipeline_data_loss_zero:
  assumes rows: "0 < nrows df"
    and run: "automated_cleaning_pipeline mem guess_format parse_with parse_number df
              = Inr (df', report)"
  shows "nrows df' = nrows df
       \<and> (\<exists>v. validation report = Some v \<and> rows_remaining v = nrows df
              \<and> data_loss_percentage v = 0)"
proof -
  let ?df1 = "standardize_datatypes guess_format parse_with parse_number df"
  obtain df2 where imp: "handle_missing_values ?df1 = Inr df2"
    using run by (auto simp: automated_cleaning_pipeline_def check_data_quality_def Let_def
                       split: sum.splits)
  let ?df3 = "fst (remove_outliers df2)"
  have n1: "nrows ?df1 = nrows df" by (simp add: standardize_datatypes_def)
  have n2: "nrows df2 = nrows df" using handle_missing_values_Inr(1) [OF imp] n1 by simp
  have n3: "nrows ?df3 = nrows df" using n2 by (simp add: remove_outliers_def case_prod_unfold Let_def)
  have shape: "fst (shape df) \<noteq> 0" using rows by (simp add: shape_def)
  from run imp shape have
    "df' = ?df3" and
    "validation report = Some \<lparr> rows_remaining = nrows ?df3,
        missing_values_remaining = sum_list (map snd (isnull_sum ?df3)),
        duplicates_remaining = length (filter id (duplicated ?df3)),
        data_loss_percentage = (1 - real (nrows ?df3) / real (fst (shape df))) * 100 \<rparr>"
    by (auto simp: automated_cleaning_pipeline_def check_data_quality_def validate_cleaning_def
                   Let_def case_prod_unfold)
  then show ?thesis using n3 rows by (simp add: shape_def)
qed

text \<open>
  C1 on the shop table: it has five rows, and the pipeline returns on it.
\<close>

theorem pipeline_data_loss_zero_witness:
  "0 < nrows shop
   \<and> (\<exists>df' report.
         automated_cleaning_pipeline (\<lambda>d. 0) (\<lambda>s. ()) one_date plain_number shop = Inr (df', report)
       \<and> nrows df' = nrows shop
       \<and> (\<exists>v. validation report = Some v \<and> rows_remaining v = nrows shop
              \<and> data_loss_percentage v = 0))"
proof -
  have rows: "0 < nrows shop" by (simp add: shop_def)
  have "\<exists>x. automated_cleaning_pipeline (\<lambda>d. 0) (\<lambda>s. ()) one_date plain_number shop = Inr x"
    using rows
    by (simp add: automated_cleaning_pipeline_def check_data_quality_def shop_standardize
                  shop_impute validate_cleaning_def shape_def Let_def case_prod_unfold)
  then obtain df' report where
    run: "automated_cleaning_pipeline (\<lambda>d. 0) (\<lambda>s. ()) one_date plain_number shop = Inr (df', report)"
    by force
  from pipeline_data_loss_zero [OF rows run] rows run show ?thesis by blast
qed

end
